theory Spec2Isabelle
  imports Main "HOL-Library.AList" "HOL-Library.Sublist"
begin

section \<open>Values, errors and external collaborators\<close>

text \<open>
  The program is one Python module, \<^verbatim>\<open>main.py\<close>. Strings are modelled as byte lists (the
  UTF-8 encoding of the Python text); every string operation used by the program (splitting
  at line feeds, equality of lines, replacing an ASCII token, joining) commutes with that
  encoding. Console output is not modelled: the two \<^verbatim>\<open>print\<close> calls touch neither the answers
  nor the files. The file system is a map from path strings to contents, on a POSIX host.

  Every exception the program can raise is a value of \<open>error\<close>; a function that can raise
  returns \<open>error + 'a\<close> with \<open>Inl\<close> for the exception. The last three constructors stand for
  whatever the YAML parser, the model chain and the PDF engine raise themselves.
\<close>

datatype error =
    FileNotFoundError string
  | SameFileError
  | AttributeError
  | TypeError
  | KeyError string
  | IndexError
  | ValueError string
  | YAMLError string
  | LLMError string
  | PdfError string

text \<open>
  What \<^verbatim>\<open>yaml.safe_load\<close> can return: scalars, sequences and mappings (in document order).
  The keys of a mapping are strings, as the annotation \<^verbatim>\<open>Dict[str, Dict[str, str]]\<close> of the
  program has them; a Python dictionary is an association list with pairwise different keys.
\<close>

datatype yaml =
    YNull
  | YBool bool
  | YInt int
  | YStr string
  | YSeq "yaml list"
  | YMap "(string \<times> yaml) list"

text \<open>\<^verbatim>\<open>questions.items()\<close>: only a mapping has the method.\<close>

fun items :: "yaml \<Rightarrow> error + (string \<times> yaml) list" where
  "items (YMap kvs) = Inr kvs"
| "items _ = Inl AttributeError"

text \<open>\<^verbatim>\<open>value[k]\<close> with a string subscript: a lookup in a mapping, a \<^verbatim>\<open>TypeError\<close> elsewhere.\<close>

fun getitem :: "yaml \<Rightarrow> string \<Rightarrow> error + yaml" where
  "getitem (YMap kvs) k = (case map_of kvs k of None \<Rightarrow> Inl (KeyError k) | Some v \<Rightarrow> Inr v)"
| "getitem _ k = Inl TypeError"

text \<open>
  The input dictionary of \<^verbatim>\<open>chain.invoke\<close>, and the chain itself: an external service with a
  state of its own, which answers with a text or raises.
\<close>

record chain_input =
  transcript :: string
  question :: yaml
  ans_template :: yaml

type_synonym 'b chain = "'b \<Rightarrow> chain_input \<Rightarrow> (error + string) \<times> 'b"

text \<open>The argument of \<^verbatim>\<open>Section(text, toc=, root=, borders=)\<close> and the PDF engine.\<close>

record pdf_section =
  sec_text :: string
  sec_toc :: bool
  sec_root :: string
  sec_borders :: "int \<times> int \<times> int \<times> int"

type_synonym renderer = "pdf_section list \<Rightarrow> error + string"

type_synonym fs = "string \<rightharpoonup> string"

section \<open>Text files\<close>

abbreviation LF :: char where "LF \<equiv> CHR 0x0A"
abbreviation CR :: char where "CR \<equiv> CHR 0x0D"

text \<open>Reading in text mode translates \<^verbatim>\<open>\r\n\<close> and a lone \<^verbatim>\<open>\r\<close> to \<^verbatim>\<open>\n\<close>.\<close>

fun universal_newlines :: "string \<Rightarrow> string" where
  "universal_newlines [] = []"
| "universal_newlines [c] = (if c = CR then [LF] else [c])"
| "universal_newlines (c # d # cs) =
     (if c = CR then (if d = LF then LF # universal_newlines cs
                      else LF # universal_newlines (d # cs))
      else c # universal_newlines (d # cs))"

text \<open>\<^verbatim>\<open>f.readlines()\<close>: the lines with their terminators; the last one may lack it.\<close>

fun readlines :: "string \<Rightarrow> string list" where
  "readlines [] = []"
| "readlines (c # cs) =
     (if c = LF then [LF] # readlines cs
      else (case readlines cs of [] \<Rightarrow> [[c]] | l # ls \<Rightarrow> (c # l) # ls))"

text \<open>\<^verbatim>\<open>s.replace(old, new)\<close>: all occurrences, leftmost first, not overlapping.\<close>

fun replace_nonempty :: "string \<Rightarrow> string \<Rightarrow> string \<Rightarrow> string" where
  "replace_nonempty old new [] = []"
| "replace_nonempty old new (c # cs) =
     (if prefix old (c # cs)
      then new @ replace_nonempty old new (drop (length old - 1) cs)
      else c # replace_nonempty old new cs)"

definition str_replace :: "string \<Rightarrow> string \<Rightarrow> string \<Rightarrow> string" where
  "str_replace old new s =
     (if old = [] then new @ concat (map (\<lambda>c. c # new) s) else replace_nonempty old new s)"

text \<open>\<^verbatim>\<open>lines.index(x)\<close>: the first position of \<open>x\<close>.\<close>

fun list_index :: "'a list \<Rightarrow> 'a \<Rightarrow> nat option" where
  "list_index [] x = None"
| "list_index (y # ys) x = (if y = x then Some 0 else map_option Suc (list_index ys x))"

text \<open>\<^verbatim>\<open>os.path.join\<close> of two components.\<close>

definition join :: "string \<Rightarrow> string \<Rightarrow> string" where
  "join a b =
     (if b \<noteq> [] \<and> hd b = CHR ''/'' then b
      else if a = [] \<or> last a = CHR ''/'' then a @ b
      else a @ ''/'' @ b)"

text \<open>\<^verbatim>\<open>shutil.copy(src, dst)\<close> for a destination that is not a directory.\<close>

definition copy :: "fs \<Rightarrow> string \<Rightarrow> string \<Rightarrow> error + fs" where
  "copy files src dst =
     (case files src of
        None \<Rightarrow> Inl (FileNotFoundError src)
      | Some raw \<Rightarrow> if src = dst then Inl SameFileError else Inr (files(dst \<mapsto> raw)))"

text \<open>
  \<^verbatim>\<open>f.seek(0); f.write(text)\<close> on a file opened with \<^verbatim>\<open>"r+"\<close>: the bytes are written from
  position 0 over the old content; the file is not truncated.
\<close>

definition overwrite :: "string \<Rightarrow> string \<Rightarrow> string" where
  "overwrite old new = new @ drop (length new) old"

section \<open>The functions of main.py\<close>

definition get_transcript :: "fs \<Rightarrow> string \<Rightarrow> error + string" where
  "get_transcript files path =
     (case files path of
        None \<Rightarrow> Inl (FileNotFoundError path)
      | Some raw \<Rightarrow> Inr (universal_newlines raw))"

definition get_questions :: "(string \<Rightarrow> error + yaml) \<Rightarrow> fs \<Rightarrow> string \<Rightarrow> error + yaml" where
  "get_questions safe_load files path =
     (case files path of
        None \<Rightarrow> Inl (FileNotFoundError path)
      | Some raw \<Rightarrow> safe_load (universal_newlines raw))"

text \<open>
  The loop of \<open>get_answer\<close> over \<^verbatim>\<open>questions.items()\<close>; \<^verbatim>\<open>result[field] = ...\<close> is
  \<^const>\<open>AList.update\<close>, which overwrites an existing key in place and appends a new one.
\<close>

fun get_answer_loop ::
  "'b chain \<Rightarrow> string \<Rightarrow> (string \<times> yaml) list \<Rightarrow> (string \<times> string) list \<Rightarrow> 'b
     \<Rightarrow> (error + (string \<times> string) list) \<times> 'b" where
  "get_answer_loop invoke tr [] result s = (Inr result, s)"
| "get_answer_loop invoke tr ((key, val) # rest) result s =
     (case getitem val ''question'' of
        Inl e \<Rightarrow> (Inl e, s)
      | Inr q \<Rightarrow>
         (case getitem val ''ans_template'' of
            Inl e \<Rightarrow> (Inl e, s)
          | Inr a \<Rightarrow>
             (case invoke s \<lparr>transcript = tr, question = q, ans_template = a\<rparr> of
                (Inl e, s') \<Rightarrow> (Inl e, s')
              | (Inr answer, s') \<Rightarrow>
                  get_answer_loop invoke tr rest (AList.update key answer result) s')))"

definition get_answer ::
  "'b chain \<Rightarrow> string \<Rightarrow> yaml \<Rightarrow> 'b \<Rightarrow> (error + (string \<times> string) list) \<times> 'b" where
  "get_answer invoke tr questions s =
     (case items questions of
        Inl e \<Rightarrow> (Inl e, s)
      | Inr kvs \<Rightarrow> get_answer_loop invoke tr kvs [] s)"

text \<open>The placeholder line of a field, \<^verbatim>\<open>f":::{field}:::\n"\<close>.\<close>

definition placeholder :: "string \<Rightarrow> string" where
  "placeholder field = '':::'' @ field @ '':::'' @ [LF]"

text \<open>One iteration of the loop of \<open>get_summary_file\<close>, and the loop.\<close>

fun replace_field :: "string list \<Rightarrow> string \<times> string \<Rightarrow> error + string list" where
  "replace_field lines (field, ans) =
     (case list_index lines (placeholder field) of
        None \<Rightarrow> Inl (ValueError (placeholder field))
      | Some i \<Rightarrow> Inr (lines[i := ans]))"

fun substitute_fields :: "string list \<Rightarrow> (string \<times> string) list \<Rightarrow> error + string list" where
  "substitute_fields lines [] = Inr lines"
| "substitute_fields lines (p # ps) =
     (case replace_field lines p of
        Inl e \<Rightarrow> Inl e
      | Inr lines' \<Rightarrow> substitute_fields lines' ps)"

text \<open>Line 115: \<^verbatim>\<open>lines[1] = lines[1].replace(":::path_to_img:::", path_to_logo)\<close>.\<close>

definition substitute_logo :: "string list \<Rightarrow> error + string list" where
  "substitute_logo lines =
     (if length lines < 2 then Inl IndexError
      else Inr (lines[1 := str_replace '':::path_to_img:::'' (join ''template'' ''img.svg'')
                            (lines ! 1)]))"

text \<open>
  The names of the output files: \<open>dir\<close> is \<^verbatim>\<open>PATH_TO_DIR\<close> and \<open>uuid\<close> the text of the token
  drawn by \<^verbatim>\<open>uuid4()\<close>; \<^verbatim>\<open>path_to_file[:-2] + "pdf"\<close> for the PDF.
\<close>

definition file_name :: "string \<Rightarrow> string" where
  "file_name uuid = ''summary'' @ uuid @ ''.md''"

definition path_to_file :: "string \<Rightarrow> string \<Rightarrow> string" where
  "path_to_file dir uuid = join dir (file_name uuid)"

definition path_to_pdf :: "string \<Rightarrow> string \<Rightarrow> string" where
  "path_to_pdf dir uuid =
     take (length (path_to_file dir uuid) - 2) (path_to_file dir uuid) @ ''pdf''"

text \<open>
  \<open>get_summary_file\<close> returns the file system as it leaves it, also when it raises. The
  text is written back when the file is closed, which happens on every way out of the
  \<^verbatim>\<open>with\<close> block that follows \<^verbatim>\<open>f.write\<close>.
\<close>

definition get_summary_file ::
  "renderer \<Rightarrow> string \<Rightarrow> string \<Rightarrow> fs \<Rightarrow> string \<Rightarrow> (string \<times> string) list \<Rightarrow> bool
     \<Rightarrow> (error + unit) \<times> fs" where
  "get_summary_file render dir uuid files path result make_pdf =
     (case copy files path (path_to_file dir uuid) of
        Inl e \<Rightarrow> (Inl e, files)
      | Inr files1 \<Rightarrow>
         (case files1 (path_to_file dir uuid) of
            None \<Rightarrow> (Inl (FileNotFoundError (path_to_file dir uuid)), files1)
          | Some raw \<Rightarrow>
             (case substitute_logo (readlines (universal_newlines raw)) of
                Inl e \<Rightarrow> (Inl e, files1)
              | Inr lines1 \<Rightarrow>
                 (case substitute_fields lines1 result of
                    Inl e \<Rightarrow> (Inl e, files1)
                  | Inr lines2 \<Rightarrow>
                     (let txt = concat lines2;
                          files2 = files1(path_to_file dir uuid \<mapsto> overwrite raw txt)
                      in if make_pdf
                         then (case render [\<lparr>sec_text = txt, sec_toc = False, sec_root = dir,
                                              sec_borders = (10, 10, -10, -10)\<rparr>] of
                                 Inl e \<Rightarrow> (Inl e, files2)
                               | Inr pdf \<Rightarrow> (Inr (), files2(path_to_pdf dir uuid \<mapsto> pdf)))
                         else (Inr (), files2))))))"

definition main ::
  "(string \<Rightarrow> error + yaml) \<Rightarrow> 'b chain \<Rightarrow> renderer \<Rightarrow> string \<Rightarrow> string \<Rightarrow> fs \<times> 'b
     \<Rightarrow> (error + unit) \<times> fs \<times> 'b" where
  "main safe_load invoke render dir uuid w =
     (let files = fst w; s = snd w;
          path_to_transcript = join dir ''transcript.md'';
          path_to_template = join (join dir ''template'') ''template.md'';
          path_to_questions = join (join dir ''template'') ''questions.yaml''
      in case get_transcript files path_to_transcript of
           Inl e \<Rightarrow> (Inl e, files, s)
         | Inr tr \<Rightarrow>
            (case get_questions safe_load files path_to_questions of
               Inl e \<Rightarrow> (Inl e, files, s)
             | Inr questions \<Rightarrow>
                (case get_answer invoke tr questions s of
                   (Inl e, s') \<Rightarrow> (Inl e, files, s')
                 | (Inr result, s') \<Rightarrow>
                    (case get_summary_file render dir uuid files path_to_template result True of
                       (r, files') \<Rightarrow> (r, files', s')))))"

section \<open>Stubs and sample data\<close>

text \<open>
  A chain wrapped with a call counter: the wrapped chain answers as the original does and
  the second component of its state counts the invocations.
\<close>

definition counted :: "'b chain \<Rightarrow> ('b \<times> nat) chain" where
  "counted invoke sn i = (case invoke (fst sn) i of (r, s') \<Rightarrow> (r, (s', Suc (snd sn))))"

definition example_questions :: "(string \<times> yaml) list" where
  "example_questions =
     [(''date'', YMap [(''question'', YStr ''When did the call occur?''),
                       (''ans_template'', YStr ''DD.MM.YYYY'')]),
      (''topic'', YMap [(''question'', YStr ''What was discussed?''),
                        (''ans_template'', YStr ''one line'')])]"

text \<open>A stub chain that never raises: it answers with the answer-template hint it was given.\<close>

definition echo_chain :: "unit chain" where
  "echo_chain s i =
     (Inr (case ans_template i of YStr t \<Rightarrow> t | _ \<Rightarrow> ''information absent''), s)"

text \<open>A template of three lines, a file system that holds it, and a PDF engine stub.\<close>

definition example_template :: string where
  "example_template =
     ''# Summary'' @ [LF] @ ''![logo](:::path_to_img:::)'' @ [LF] @ '':::date:::'' @ [LF]"

definition example_files :: fs where
  "example_files = [''/app/template/template.md'' \<mapsto> example_template]"

definition plain_render :: renderer where
  "plain_render ss = Inr (''%PDF'' @ concat (map sec_text ss))"

text \<open>Three question documents and the values the YAML parser gives for them.\<close>

definition incomplete_doc :: string where
  "incomplete_doc = ''date:'' @ [LF] @ ''  question: When did the call occur?'' @ [LF]"

definition date_doc :: string where
  "date_doc = ''date:'' @ [LF] @ ''  question: When did the call occur?'' @ [LF] @
              ''  ans_template: DD.MM.YYYY'' @ [LF]"

definition day_doc :: string where
  "day_doc = ''day:'' @ [LF] @ ''  question: When did the call occur?'' @ [LF] @
             ''  ans_template: DD.MM.YYYY'' @ [LF]"

text \<open>A parser stub: it knows the three documents and rejects every other text.\<close>

definition sample_safe_load :: "string \<Rightarrow> error + yaml" where
  "sample_safe_load s =
     (if s = incomplete_doc
      then Inr (YMap [(''date'', YMap [(''question'', YStr ''When did the call occur?'')])])
      else if s = date_doc
      then Inr (YMap [(''date'', YMap [(''question'', YStr ''When did the call occur?''),
                                       (''ans_template'', YStr ''DD.MM.YYYY'')])])
      else if s = day_doc
      then Inr (YMap [(''day'', YMap [(''question'', YStr ''When did the call occur?''),
                                      (''ans_template'', YStr ''DD.MM.YYYY'')])])
      else Inl (YAMLError ''unknown document''))"

text \<open>The files of an installation in \<^verbatim>\<open>/app\<close> with a given question document.\<close>

definition app_files :: "string \<Rightarrow> fs" where
  "app_files doc =
     [''/app/transcript.md'' \<mapsto> ''The call took place on 03.04.2024.'',
      ''/app/template/template.md'' \<mapsto> example_template,
      ''/app/template/questions.yaml'' \<mapsto> doc]"

text \<open>A chain whose backend is unreachable.\<close>

definition refusing_chain :: "unit chain" where
  "refusing_chain s i = (Inl (LLMError ''connection refused''), s)"

text \<open>A PDF engine stub that renders only sections whose borders it accepts.\<close>

definition picky_render :: "(int \<times> int \<times> int \<times> int \<Rightarrow> bool) \<Rightarrow> renderer" where
  "picky_render accept ss =
     (if list_all (\<lambda>sec. accept (sec_borders sec)) ss then Inr ''%PDF''
      else Inl (PdfError ''borders rejected''))"

text \<open>Borders with three components 10 and one component -10, in any order.\<close>

definition three_tens :: "int \<times> int \<times> int \<times> int \<Rightarrow> bool" where
  "three_tens b =
     (case b of (x0, y0, x1, y1) \<Rightarrow>
        length (filter (\<lambda>m. m = 10) [x0, y0, x1, y1]) = 3 \<and>
        length (filter (\<lambda>m. m = - 10) [x0, y0, x1, y1]) = 1)"

text \<open>A template whose logo token is on the third line, not on the second.\<close>

definition misplaced_template :: string where
  "misplaced_template =
     ''# Summary'' @ [LF] @ ''Call notes'' @ [LF] @ ''![logo](:::path_to_img:::)'' @ [LF]"

text \<open>A template with the placeholder lines of two fields.\<close>

definition two_field_template :: string where
  "two_field_template =
     ''# Summary'' @ [LF] @ ''![logo](:::path_to_img:::)'' @ [LF] @ '':::date:::'' @ [LF] @
     '':::topic:::'' @ [LF]"

section \<open>The answer generator\<close>

lemma update_fresh_key:
  "k \<notin> fst ` set al \<Longrightarrow> AList.update k v al = al @ [(k, v)]"
  by (induction al) auto

lemma get_answer_loop_keys:
  "get_answer_loop invoke tr kvs acc s = (Inr r, s') \<Longrightarrow>
   distinct (map fst acc @ map fst kvs) \<Longrightarrow>
   map fst r = map fst acc @ map fst kvs"
proof (induction kvs arbitrary: acc s)
  case Nil
  then show ?case by simp
next
  case (Cons kv kvs)
  obtain key val where kv: "kv = (key, val)" by (cases kv)
  from Cons.prems(1) obtain q a answer s1 where
    step: "invoke s \<lparr>transcript = tr, question = q, ans_template = a\<rparr> = (Inr answer, s1)"
    and rest: "get_answer_loop invoke tr kvs (AList.update key answer acc) s1 = (Inr r, s')"
    by (auto simp: kv split: sum.splits prod.splits)
  from Cons.prems(2) have fresh: "key \<notin> fst ` set acc"
    by (auto simp: kv)
  then have upd: "AList.update key answer acc = acc @ [(key, answer)]"
    by (rule update_fresh_key)
  from Cons.prems(2) have "distinct (map fst (acc @ [(key, answer)]) @ map fst kvs)"
    by (auto simp: kv)
  with Cons.IH [OF rest [unfolded upd]] show ?case
    by (simp add: kv)
qed

lemma get_answer_loop_counted:
  "get_answer_loop invoke tr kvs acc s = (Inr r, s') \<Longrightarrow>
   get_answer_loop (counted invoke) tr kvs acc (s, n) = (Inr r, (s', n + length kvs))"
proof (induction kvs arbitrary: acc s n)
  case Nil
  then show ?case by simp
next
  case (Cons kv kvs)
  obtain key val where kv: "kv = (key, val)" by (cases kv)
  from Cons.prems obtain q a answer s1 where
    q: "getitem val ''question'' = Inr q" and a: "getitem val ''ans_template'' = Inr a" and
    step: "invoke s \<lparr>transcript = tr, question = q, ans_template = a\<rparr> = (Inr answer, s1)"
    and rest: "get_answer_loop invoke tr kvs (AList.update key answer acc) s1 = (Inr r, s')"
    by (auto simp: kv split: sum.splits prod.splits)
  from Cons.IH [OF rest, of "Suc n"] show ?case
    by (simp add: kv q a step counted_def)
qed

lemma get_answer_loop_returns:
  "\<forall>kv \<in> set kvs. \<exists>q a. getitem (snd kv) ''question'' = Inr q \<and>
                          getitem (snd kv) ''ans_template'' = Inr a \<Longrightarrow>
   \<forall>s i. \<exists>answer s'. invoke s i = (Inr answer, s') \<Longrightarrow>
   \<exists>r s'. get_answer_loop invoke tr kvs acc s = (Inr r, s')"
proof (induction kvs arbitrary: acc s)
  case Nil
  then show ?case by simp
next
  case (Cons kv kvs)
  obtain key val where kv: "kv = (key, val)" by (cases kv)
  from Cons.prems(1) obtain q a where
    q: "getitem val ''question'' = Inr q" and a: "getitem val ''ans_template'' = Inr a"
    by (auto simp: kv)
  from Cons.prems(2) obtain answer s1 where
    step: "invoke s \<lparr>transcript = tr, question = q, ans_template = a\<rparr> = (Inr answer, s1)"
    by blast
  from Cons.prems(1) have wf:
    "\<forall>kv \<in> set kvs. \<exists>q a. getitem (snd kv) ''question'' = Inr q \<and>
                            getitem (snd kv) ''ans_template'' = Inr a"
    by simp
  from Cons.IH [OF wf Cons.prems(2)] show ?case
    by (simp add: kv q a step)
qed

text \<open>
  Claim C1. For a question set with pairwise different field keys (a Python dictionary),
  every answer set that \<open>get_answer\<close> returns has the keys of the question set, in the same
  order, one entry per key, and the run invoked the chain exactly once per key. Where every
  entry has its \<^verbatim>\<open>question\<close> and \<^verbatim>\<open>ans_template\<close> members and the chain never raises,
  \<open>get_answer\<close> does return an answer set.
\<close>

theorem get_answer_same_keys:
  assumes "distinct (map fst kvs)"
  shows "(\<forall>r s'. get_answer invoke tr (YMap kvs) s = (Inr r, s') \<longrightarrow>
            map fst r = map fst kvs \<and> distinct (map fst r) \<and> length r = length kvs \<and>
            get_answer (counted invoke) tr (YMap kvs) (s, 0) = (Inr r, (s', length kvs))) \<and>
         ((\<forall>kv \<in> set kvs. \<exists>q a. getitem (snd kv) ''question'' = Inr q \<and>
                                 getitem (snd kv) ''ans_template'' = Inr a) \<and>
          (\<forall>s i. \<exists>answer s'. invoke s i = (Inr answer, s')) \<longrightarrow>
          (\<exists>r s'. get_answer invoke tr (YMap kvs) s = (Inr r, s')))"
proof (intro conjI allI impI)
  fix r s'
  assume run: "get_answer invoke tr (YMap kvs) s = (Inr r, s')"
  then have loop: "get_answer_loop invoke tr kvs [] s = (Inr r, s')"
    by (simp add: get_answer_def)
  from get_answer_loop_keys [OF loop] assms show keys: "map fst r = map fst kvs"
    by simp
  with assms show "distinct (map fst r)" by simp
  from keys show "length r = length kvs" by (metis length_map)
  from get_answer_loop_counted [OF loop, of 0]
  show "get_answer (counted invoke) tr (YMap kvs) (s, 0) = (Inr r, (s', length kvs))"
    by (simp add: get_answer_def)
next
  assume "(\<forall>kv \<in> set kvs. \<exists>q a. getitem (snd kv) ''question'' = Inr q \<and>
                                 getitem (snd kv) ''ans_template'' = Inr a) \<and>
          (\<forall>s i. \<exists>answer s'. invoke s i = (Inr answer, s'))"
  then show "\<exists>r s'. get_answer invoke tr (YMap kvs) s = (Inr r, s')"
    using get_answer_loop_returns [of kvs invoke tr "[]" s] by (simp add: get_answer_def)
qed

theorem get_answer_same_keys_witness:
  "distinct (map fst example_questions) \<and>
   list_all (\<lambda>kv. (\<exists>q. getitem (snd kv) ''question'' = Inr q) \<and>
                   (\<exists>a. getitem (snd kv) ''ans_template'' = Inr a)) example_questions \<and>
   (\<forall>s i. \<exists>answer s'. echo_chain s i = (Inr answer, s')) \<and>
   get_answer echo_chain ''The call took place on 03.04.2024.'' (YMap example_questions) ()
     = (Inr [(''date'', ''DD.MM.YYYY''), (''topic'', ''one line'')], ()) \<and>
   map fst [(''date'', ''DD.MM.YYYY''), (''topic'', ''one line'')]
     = map fst example_questions \<and>
   get_answer (counted echo_chain) ''The call took place on 03.04.2024.''
       (YMap example_questions) ((), 0)
     = (Inr [(''date'', ''DD.MM.YYYY''), (''topic'', ''one line'')], ((), 2))"
proof -
  have d: "distinct (map fst example_questions)"
    by (simp add: example_questions_def)
  have wf: "list_all (\<lambda>kv. (\<exists>q. getitem (snd kv) ''question'' = Inr q) \<and>
                   (\<exists>a. getitem (snd kv) ''ans_template'' = Inr a)) example_questions"
    by (simp add: example_questions_def)
  have ok: "\<forall>s i. \<exists>answer s'. echo_chain s i = (Inr answer, s')"
    by (simp add: echo_chain_def)
  note inst = get_answer_same_keys
    [OF d, of echo_chain "''The call took place on 03.04.2024.''" "()"]
  from wf have "\<forall>kv \<in> set example_questions.
      \<exists>q a. getitem (snd kv) ''question'' = Inr q \<and> getitem (snd kv) ''ans_template'' = Inr a"
    by (auto simp: list_all_iff)
  with inst ok obtain r s' where
    "get_answer echo_chain ''The call took place on 03.04.2024.'' (YMap example_questions) ()
       = (Inr r, s')"
    by blast
  moreover have run:
    "get_answer echo_chain ''The call took place on 03.04.2024.'' (YMap example_questions) ()
       = (Inr [(''date'', ''DD.MM.YYYY''), (''topic'', ''one line'')], ())"
    by (simp add: get_answer_def example_questions_def echo_chain_def)
  ultimately have r: "r = [(''date'', ''DD.MM.YYYY''), (''topic'', ''one line'')]"
    by simp
  from inst run have
    "map fst [(''date'', ''DD.MM.YYYY''), (''topic'', ''one line'')]
       = map fst example_questions \<and>
     get_answer (counted echo_chain) ''The call took place on 03.04.2024.''
         (YMap example_questions) ((), 0)
       = (Inr [(''date'', ''DD.MM.YYYY''), (''topic'', ''one line'')],
          ((), length example_questions))"
    by blast
  moreover have "length example_questions = 2"
    by (simp add: example_questions_def)
  ultimately show ?thesis using d wf ok run by simp
qed

section \<open>The question loader and the pipeline\<close>

lemma get_answer_loop_append:
  "get_answer_loop invoke tr (xs @ ys) acc s =
     (case get_answer_loop invoke tr xs acc s of
        (Inl e, s') \<Rightarrow> (Inl e, s')
      | (Inr acc', s') \<Rightarrow> get_answer_loop invoke tr ys acc' s')"
  by (induction xs arbitrary: acc s) (auto split: sum.splits prod.splits)

text \<open>
  Claim C5, as amended. For a path that names a file, \<open>get_questions\<close> returns exactly what
  the YAML parser returns for the text of the file: the parsed value, whatever its shape, or
  the error of the parser itself. Nothing is checked in the loader. A document that is not
  a mapping makes \<open>get_answer\<close> raise \<^verbatim>\<open>AttributeError\<close>; an entry that is not a mapping, or
  that lacks \<^verbatim>\<open>question\<close> or \<^verbatim>\<open>ans_template\<close>, makes it raise \<^verbatim>\<open>TypeError\<close> or \<^verbatim>\<open>KeyError\<close>
  when the loop reaches that entry, after the entries before it have been answered.
\<close>

theorem get_questions_unvalidated:
  assumes "files path = Some raw"
    and "get_answer_loop invoke tr pre [] s = (Inr acc, s1)"
  shows "get_questions safe_load files path = safe_load (universal_newlines raw) \<and>
   ((\<forall>kvs. v \<noteq> YMap kvs) \<longrightarrow> get_answer invoke tr v s = (Inl AttributeError, s)) \<and>
   ((\<forall>m. entry \<noteq> YMap m) \<longrightarrow>
      get_answer invoke tr (YMap (pre @ (k, entry) # rest)) s = (Inl TypeError, s1)) \<and>
   (map_of m ''question'' = None \<longrightarrow>
      get_answer invoke tr (YMap (pre @ (k, YMap m) # rest)) s
        = (Inl (KeyError ''question''), s1)) \<and>
   (map_of m' ''question'' \<noteq> None \<and> map_of m' ''ans_template'' = None \<longrightarrow>
      get_answer invoke tr (YMap (pre @ (k, YMap m') # rest)) s
        = (Inl (KeyError ''ans_template''), s1))"
proof (intro conjI impI)
  show "get_questions safe_load files path = safe_load (universal_newlines raw)"
    by (simp add: get_questions_def assms(1))
next
  assume "\<forall>kvs. v \<noteq> YMap kvs"
  then show "get_answer invoke tr v s = (Inl AttributeError, s)"
    by (cases v) (simp_all add: get_answer_def)
next
  assume "\<forall>m. entry \<noteq> YMap m"
  then have "getitem entry ''question'' = Inl TypeError"
    by (cases entry) simp_all
  then show "get_answer invoke tr (YMap (pre @ (k, entry) # rest)) s = (Inl TypeError, s1)"
    by (simp add: get_answer_def get_answer_loop_append assms(2))
next
  assume "map_of m ''question'' = None"
  then show "get_answer invoke tr (YMap (pre @ (k, YMap m) # rest)) s
               = (Inl (KeyError ''question''), s1)"
    by (simp add: get_answer_def get_answer_loop_append assms(2))
next
  assume "map_of m' ''question'' \<noteq> None \<and> map_of m' ''ans_template'' = None"
  then show "get_answer invoke tr (YMap (pre @ (k, YMap m') # rest)) s
               = (Inl (KeyError ''ans_template''), s1)"
    by (auto simp: get_answer_def get_answer_loop_append assms(2))
qed

theorem get_questions_unvalidated_witness:
  "app_files incomplete_doc ''/app/template/questions.yaml'' = Some incomplete_doc \<and>
   get_answer_loop echo_chain ''T'' [] [] () = (Inr [], ()) \<and>
   get_questions sample_safe_load (app_files incomplete_doc) ''/app/template/questions.yaml''
     = sample_safe_load (universal_newlines incomplete_doc) \<and>
   (\<forall>kvs. YNull \<noteq> YMap kvs) \<and>
   get_answer echo_chain ''T'' YNull () = (Inl AttributeError, ()) \<and>
   (\<forall>m. YStr ''When?'' \<noteq> YMap m) \<and>
   get_answer echo_chain ''T'' (YMap ([] @ (''date'', YStr ''When?'') # [])) ()
     = (Inl TypeError, ()) \<and>
   map_of [(''ans_template'', YStr ''DD.MM.YYYY'')] ''question'' = None \<and>
   get_answer echo_chain ''T''
       (YMap ([] @ (''date'', YMap [(''ans_template'', YStr ''DD.MM.YYYY'')]) # [])) ()
     = (Inl (KeyError ''question''), ()) \<and>
   map_of [(''question'', YStr ''When?'')] ''question'' \<noteq> None \<and>
   map_of [(''question'', YStr ''When?'')] ''ans_template'' = None \<and>
   get_answer echo_chain ''T'' (YMap ([] @ (''date'', YMap [(''question'', YStr ''When?'')]) # [])) ()
     = (Inl (KeyError ''ans_template''), ())"
proof -
  have a: "app_files incomplete_doc ''/app/template/questions.yaml'' = Some incomplete_doc"
    by (simp add: app_files_def)
  have b: "get_answer_loop echo_chain ''T'' [] [] () = (Inr [], ())"
    by simp
  from get_questions_unvalidated
      [of "app_files incomplete_doc" "''/app/template/questions.yaml''" incomplete_doc
          echo_chain "''T''" "[]" "()" "[]" "()" sample_safe_load YNull "YStr ''When?''"
          "''date''" "[]" "[(''ans_template'', YStr ''DD.MM.YYYY'')]"
          "[(''question'', YStr ''When?'')]", OF a b] a b
  show ?thesis by simp
qed

text \<open>
  The claim as it was stated fails on a document whose only entry has no answer template:
  the loader returns the value as it was parsed, and the run fails in \<open>get_answer\<close>.
\<close>

theorem get_questions_counterexample:
  "get_questions sample_safe_load (app_files incomplete_doc) ''/app/template/questions.yaml''
     = Inr (YMap [(''date'', YMap [(''question'', YStr ''When did the call occur?'')])]) \<and>
   get_answer echo_chain ''The call took place on 03.04.2024.''
       (YMap [(''date'', YMap [(''question'', YStr ''When did the call occur?'')])]) ()
     = (Inl (KeyError ''ans_template''), ())"
  by (simp add: get_questions_def app_files_def sample_safe_load_def incomplete_doc_def
      get_answer_def)

text \<open>
  Claim C6, as amended. If the questions before \<open>k\<close> are answered and the chain raises \<open>e\<close>
  on question \<open>k\<close>, then \<open>main\<close> raises this very \<open>e\<close>, as the chain raised it, and stops
  there: the file system is the one \<open>main\<close> started with (\<open>get_summary_file\<close> has not run, no
  output file exists), and the state of the chain is the one its failing call left (no
  later question was put to it).
\<close>

theorem backend_error_aborts_run:
  assumes "get_transcript files (join dir ''transcript.md'') = Inr tr"
    and "get_questions safe_load files (join (join dir ''template'') ''questions.yaml'')
           = Inr (YMap (pre @ (k, v) # post))"
    and "get_answer_loop invoke tr pre [] s = (Inr acc, s1)"
    and "getitem v ''question'' = Inr q" and "getitem v ''ans_template'' = Inr a"
    and "invoke s1 \<lparr>transcript = tr, question = q, ans_template = a\<rparr> = (Inl e, s2)"
  shows "main safe_load invoke render dir uuid (files, s) = (Inl e, files, s2)"
proof -
  have "get_answer invoke tr (YMap (pre @ (k, v) # post)) s = (Inl e, s2)"
    by (simp add: get_answer_def get_answer_loop_append assms(3-6))
  then show ?thesis
    by (simp add: main_def Let_def assms(1,2))
qed

theorem backend_error_aborts_run_witness:
  "get_transcript (app_files date_doc) (join ''/app'' ''transcript.md'')
     = Inr ''The call took place on 03.04.2024.'' \<and>
   get_questions sample_safe_load (app_files date_doc)
       (join (join ''/app'' ''template'') ''questions.yaml'')
     = Inr (YMap ([] @ (''date'', YMap [(''question'', YStr ''When did the call occur?''),
                                       (''ans_template'', YStr ''DD.MM.YYYY'')]) # [])) \<and>
   get_answer_loop refusing_chain ''The call took place on 03.04.2024.'' [] [] () = (Inr [], ()) \<and>
   getitem (YMap [(''question'', YStr ''When did the call occur?''),
                  (''ans_template'', YStr ''DD.MM.YYYY'')]) ''question''
     = Inr (YStr ''When did the call occur?'') \<and>
   getitem (YMap [(''question'', YStr ''When did the call occur?''),
                  (''ans_template'', YStr ''DD.MM.YYYY'')]) ''ans_template''
     = Inr (YStr ''DD.MM.YYYY'') \<and>
   refusing_chain () \<lparr>transcript = ''The call took place on 03.04.2024.'',
                       question = YStr ''When did the call occur?'',
                       ans_template = YStr ''DD.MM.YYYY''\<rparr>
     = (Inl (LLMError ''connection refused''), ()) \<and>
   main sample_safe_load refusing_chain plain_render ''/app'' ''U'' (app_files date_doc, ())
     = (Inl (LLMError ''connection refused''), app_files date_doc, ())"
proof -
  have a: "get_transcript (app_files date_doc) (join ''/app'' ''transcript.md'')
     = Inr ''The call took place on 03.04.2024.''"
    by (simp add: get_transcript_def app_files_def join_def)
  have b: "get_questions sample_safe_load (app_files date_doc)
       (join (join ''/app'' ''template'') ''questions.yaml'')
     = Inr (YMap ([] @ (''date'', YMap [(''question'', YStr ''When did the call occur?''),
                                       (''ans_template'', YStr ''DD.MM.YYYY'')]) # []))"
    by (simp add: get_questions_def app_files_def join_def sample_safe_load_def date_doc_def
        incomplete_doc_def)
  have c: "get_answer_loop refusing_chain ''The call took place on 03.04.2024.'' [] [] ()
     = (Inr [], ())"
    by simp
  have d: "getitem (YMap [(''question'', YStr ''When did the call occur?''),
                  (''ans_template'', YStr ''DD.MM.YYYY'')]) ''question''
     = Inr (YStr ''When did the call occur?'')"
    by simp
  have e: "getitem (YMap [(''question'', YStr ''When did the call occur?''),
                  (''ans_template'', YStr ''DD.MM.YYYY'')]) ''ans_template''
     = Inr (YStr ''DD.MM.YYYY'')"
    by simp
  have f: "refusing_chain () \<lparr>transcript = ''The call took place on 03.04.2024.'',
                       question = YStr ''When did the call occur?'',
                       ans_template = YStr ''DD.MM.YYYY''\<rparr>
     = (Inl (LLMError ''connection refused''), ())"
    by (simp add: refusing_chain_def)
  from backend_error_aborts_run [OF a b c d e f, of plain_render "''U''"] a b c d e f
  show ?thesis by simp
qed

text \<open>
  The claim as it was stated asks for an error that carries the failing field key. Two runs
  that differ only in the field key (\<^verbatim>\<open>date\<close>, \<^verbatim>\<open>day\<close>) end with the same error value, the one
  of the chain, so the key is not in it.
\<close>

theorem backend_error_counterexample:
  "main sample_safe_load refusing_chain plain_render ''/app'' ''U'' (app_files date_doc, ())
     = (Inl (LLMError ''connection refused''), app_files date_doc, ()) \<and>
   main sample_safe_load refusing_chain plain_render ''/app'' ''U'' (app_files day_doc, ())
     = (Inl (LLMError ''connection refused''), app_files day_doc, ())"
  by (simp add: main_def Let_def join_def get_transcript_def get_questions_def app_files_def
      sample_safe_load_def date_doc_def day_doc_def incomplete_doc_def get_answer_def
      refusing_chain_def)

section \<open>The document assembler\<close>

lemma list_index_None: "list_index xs x = None \<longleftrightarrow> x \<notin> set xs"
  by (induction xs) auto

lemma list_index_Some:
  "list_index xs x = Some i \<Longrightarrow> i < length xs \<and> xs ! i = x \<and> (\<forall>j<i. xs ! j \<noteq> x)"
proof (induction xs arbitrary: i)
  case Nil
  then show ?case by simp
next
  case (Cons y ys)
  show ?case
  proof (cases "y = x")
    case True
    with Cons.prems show ?thesis by simp
  next
    case False
    with Cons.prems obtain k where k: "list_index ys x = Some k" and i: "i = Suc k"
      by auto
    from Cons.IH [OF k] False show ?thesis
      by (auto simp: i nth_Cons split: nat.splits)
  qed
qed

lemma substitute_fields_append:
  "substitute_fields ls (xs @ ys) =
     (case substitute_fields ls xs of Inl e \<Rightarrow> Inl e | Inr ls' \<Rightarrow> substitute_fields ls' ys)"
  by (induction xs arbitrary: ls) (auto split: sum.splits)

lemma join_relative:
  "b \<noteq> [] \<Longrightarrow> hd b \<noteq> CHR ''/'' \<Longrightarrow>
   join a b = (if a = [] \<or> last a = CHR ''/'' then a else a @ ''/'') @ b"
  by (simp add: join_def)

lemma path_to_file_eq:
  "path_to_file dir uuid =
     (if dir = [] \<or> last dir = CHR ''/'' then dir else dir @ ''/'') @ ''summary'' @ uuid @ ''.md''"
  by (simp add: path_to_file_def file_name_def join_relative)

lemma drop_last_two: "take (length (xs @ [a, b]) - 2) (xs @ [a, b]) = xs"
  by simp

lemma path_to_pdf_eq:
  "path_to_pdf dir uuid =
     (if dir = [] \<or> last dir = CHR ''/'' then dir else dir @ ''/'') @ ''summary'' @ uuid @ ''.pdf''"
proof -
  let ?stem = "(if dir = [] \<or> last dir = CHR ''/'' then dir else dir @ ''/'') @ ''summary'' @ uuid @ ''.''"
  have "path_to_file dir uuid = ?stem @ ''md''"
    by (simp add: path_to_file_eq)
  then have "path_to_pdf dir uuid = ?stem @ ''pdf''"
    unfolding path_to_pdf_def using drop_last_two [of ?stem "CHR ''m''" "CHR ''d''"] by simp
  then show ?thesis by simp
qed

lemma path_to_pdf_neq_file: "path_to_pdf dir uuid \<noteq> path_to_file dir uuid'"
proof
  assume "path_to_pdf dir uuid = path_to_file dir uuid'"
  then have "uuid @ ''.pdf'' = uuid' @ ''.md''"
    by (simp add: path_to_pdf_eq path_to_file_eq)
  then have "last (uuid @ ''.pdf'') = last (uuid' @ ''.md'')" by simp
  then show False by simp
qed

lemma path_to_file_inj: "path_to_file dir uuid = path_to_file dir uuid' \<longleftrightarrow> uuid = uuid'"
  by (simp add: path_to_file_eq)

lemma path_to_pdf_inj: "path_to_pdf dir uuid = path_to_pdf dir uuid' \<longleftrightarrow> uuid = uuid'"
  by (simp add: path_to_pdf_eq)

lemma get_summary_file_copied:
  assumes "files path = Some raw" and "path \<noteq> path_to_file dir uuid"
  shows "get_summary_file render dir uuid files path result make_pdf =
     (case substitute_logo (readlines (universal_newlines raw)) of
        Inl e \<Rightarrow> (Inl e, files(path_to_file dir uuid \<mapsto> raw))
      | Inr lines1 \<Rightarrow>
         (case substitute_fields lines1 result of
            Inl e \<Rightarrow> (Inl e, files(path_to_file dir uuid \<mapsto> raw))
          | Inr lines2 \<Rightarrow>
             (if make_pdf
              then (case render [\<lparr>sec_text = concat lines2, sec_toc = False, sec_root = dir,
                                   sec_borders = (10, 10, -10, -10)\<rparr>] of
                      Inl e \<Rightarrow> (Inl e, files(path_to_file dir uuid \<mapsto> overwrite raw (concat lines2)))
                    | Inr pdf \<Rightarrow> (Inr (), files(path_to_file dir uuid \<mapsto> overwrite raw (concat lines2),
                                                path_to_pdf dir uuid \<mapsto> pdf)))
              else (Inr (), files(path_to_file dir uuid \<mapsto> overwrite raw (concat lines2))))))"
  using assms
  by (simp add: get_summary_file_def copy_def Let_def split: sum.splits)

lemma get_summary_file_not_copied:
  "files path = None \<or> path = path_to_file dir uuid \<Longrightarrow>
   snd (get_summary_file render dir uuid files path result make_pdf) = files"
  by (auto simp: get_summary_file_def copy_def split: option.splits)

lemma get_summary_file_success:
  assumes "get_summary_file render dir uuid files path result make_pdf = (Inr (), files')"
  shows "\<exists>raw lines1 lines2.
           files path = Some raw \<and> path \<noteq> path_to_file dir uuid \<and>
           substitute_logo (readlines (universal_newlines raw)) = Inr lines1 \<and>
           substitute_fields lines1 result = Inr lines2 \<and>
           files' (path_to_file dir uuid) = Some (overwrite raw (concat lines2))"
proof (cases "files path")
  case None
  with assms show ?thesis
    by (simp add: get_summary_file_def copy_def)
next
  case (Some raw)
  show ?thesis
  proof (cases "path = path_to_file dir uuid")
    case True
    with assms Some show ?thesis
      by (simp add: get_summary_file_def copy_def)
  next
    case False
    from assms show ?thesis
      unfolding get_summary_file_copied [of files path raw dir uuid, OF Some False]
      using Some False path_to_pdf_neq_file [of dir uuid uuid]
      by (auto split: sum.splits if_splits)
  qed
qed

lemma overwrite_exact: "overwrite old new = new \<longleftrightarrow> length old \<le> length new"
  by (simp add: overwrite_def)

lemma placeholder_inj: "placeholder f = placeholder g \<longleftrightarrow> f = g"
  by (simp add: placeholder_def)

lemma list_index_update_other:
  "xs ! i \<noteq> x \<Longrightarrow> a \<noteq> x \<Longrightarrow> list_index (xs[i := a]) x = list_index xs x"
proof (induction xs arbitrary: i)
  case Nil
  then show ?case by simp
next
  case (Cons y ys)
  then show ?case by (cases i) auto
qed

lemma substitute_fields_keeps_index:
  "substitute_fields ls pre = Inr cur \<Longrightarrow>
   \<forall>(f, a) \<in> set pre. f \<noteq> field \<and> a \<noteq> placeholder field \<Longrightarrow>
   list_index cur (placeholder field) = list_index ls (placeholder field)"
proof (induction pre arbitrary: ls)
  case Nil
  then show ?case by simp
next
  case (Cons p pre)
  obtain f a where p: "p = (f, a)" by (cases p)
  from Cons.prems(1) obtain i where i: "list_index ls (placeholder f) = Some i"
    and rest: "substitute_fields (ls[i := a]) pre = Inr cur"
    by (auto simp: p split: option.splits)
  from Cons.prems(2) have f: "f \<noteq> field" and a: "a \<noteq> placeholder field"
    and others: "\<forall>(f, a) \<in> set pre. f \<noteq> field \<and> a \<noteq> placeholder field"
    by (auto simp: p)
  from list_index_Some [OF i] f have "ls ! i \<noteq> placeholder field"
    by (simp add: placeholder_inj)
  then have "list_index (ls[i := a]) (placeholder field) = list_index ls (placeholder field)"
    using a by (rule list_index_update_other)
  with Cons.IH [OF rest others] show ?case by simp
qed

text \<open>
  Claim C2. In a run of \<open>get_summary_file\<close> that completes, every pair \<open>(field, ans)\<close> of the
  answer set is handled as follows when its turn comes: in the document as it stands then
  (\<open>cur\<close>, the copied template after the logo substitution and the replacements of the
  earlier pairs), the first line equal to the literal \<^verbatim>\<open>:::<field>:::\n\<close> (line \<open>i\<close>; no line
  before it equals the literal) is replaced by \<open>ans\<close> itself, with nothing escaped and no line
  terminator added, and no other line changes (the document becomes \<open>cur[i := ans]\<close>). The
  text written to the output file is the concatenation of the lines after the last pair.
  Where no earlier pair has the same key or an answer that is this very literal, line \<open>i\<close> is
  also the first such line of the copy as it was before any field was replaced.
\<close>

theorem field_line_replaced:
  assumes "get_summary_file render dir uuid files path (pre @ (field, ans) # post) make_pdf
             = (Inr (), files')"
  shows "\<exists>raw lines1 cur i lines2.
           files path = Some raw \<and>
           substitute_logo (readlines (universal_newlines raw)) = Inr lines1 \<and>
           substitute_fields lines1 pre = Inr cur \<and>
           i < length cur \<and> cur ! i = placeholder field \<and>
           (\<forall>j<i. cur ! j \<noteq> placeholder field) \<and>
           replace_field cur (field, ans) = Inr (cur[i := ans]) \<and>
           substitute_fields (cur[i := ans]) post = Inr lines2 \<and>
           files' (path_to_file dir uuid) = Some (overwrite raw (concat lines2)) \<and>
           ((\<forall>(f, a) \<in> set pre. f \<noteq> field \<and> a \<noteq> placeholder field) \<longrightarrow>
              list_index lines1 (placeholder field) = Some i)"
proof -
  from get_summary_file_success [OF assms] obtain raw lines1 lines2 where
    raw: "files path = Some raw"
    and logo: "substitute_logo (readlines (universal_newlines raw)) = Inr lines1"
    and all: "substitute_fields lines1 (pre @ (field, ans) # post) = Inr lines2"
    and out: "files' (path_to_file dir uuid) = Some (overwrite raw (concat lines2))"
    by blast
  from all obtain cur where cur: "substitute_fields lines1 pre = Inr cur"
    and rest: "substitute_fields cur ((field, ans) # post) = Inr lines2"
    by (auto simp: substitute_fields_append split: sum.splits)
  from rest obtain i where i: "list_index cur (placeholder field) = Some i"
    and post: "substitute_fields (cur[i := ans]) post = Inr lines2"
    by (auto split: option.splits)
  from list_index_Some [OF i] have "i < length cur" "cur ! i = placeholder field"
    "\<forall>j<i. cur ! j \<noteq> placeholder field" by simp_all
  moreover from i have "replace_field cur (field, ans) = Inr (cur[i := ans])" by simp
  moreover have "list_index lines1 (placeholder field) = Some i"
    if "\<forall>(f, a) \<in> set pre. f \<noteq> field \<and> a \<noteq> placeholder field"
    using substitute_fields_keeps_index [OF cur that] i by simp
  ultimately show ?thesis using raw logo cur post out by blast
qed

theorem field_line_replaced_witness:
  "get_summary_file plain_render ''/app'' ''U''
       [''/app/template/template.md'' \<mapsto> two_field_template] ''/app/template/template.md''
       ([(''date'', ''03.04.2024'')] @ (''topic'', ''pricing and delivery'') # []) False =
     (Inr (), [''/app/template/template.md'' \<mapsto> two_field_template,
               ''/app/summaryU.md'' \<mapsto>
        ''# Summary'' @ [LF] @ ''![logo](template/img.svg)'' @ [LF] @ ''03.04.2024'' @
        ''pricing and delivery'']) \<and>
   ''date'' \<noteq> ''topic'' \<and> ''03.04.2024'' \<noteq> placeholder ''topic'' \<and>
   (\<exists>i. list_index [''# Summary'' @ [LF], ''![logo](template/img.svg)'' @ [LF],
                     '':::date:::'' @ [LF], '':::topic:::'' @ [LF]] (placeholder ''topic'')
           = Some i \<and>
        replace_field [''# Summary'' @ [LF], ''![logo](template/img.svg)'' @ [LF],
                       ''03.04.2024'', '':::topic:::'' @ [LF]] (''topic'', ''pricing and delivery'')
          = Inr ([''# Summary'' @ [LF], ''![logo](template/img.svg)'' @ [LF],
                  ''03.04.2024'', '':::topic:::'' @ [LF]][i := ''pricing and delivery'']))"
proof -
  let ?files = "[''/app/template/template.md'' \<mapsto> two_field_template]"
  let ?l1 = "[''# Summary'' @ [LF], ''![logo](template/img.svg)'' @ [LF],
              '':::date:::'' @ [LF], '':::topic:::'' @ [LF]]"
  let ?cur = "[''# Summary'' @ [LF], ''![logo](template/img.svg)'' @ [LF],
               ''03.04.2024'', '':::topic:::'' @ [LF]]"
  have run: "get_summary_file plain_render ''/app'' ''U'' ?files ''/app/template/template.md''
       ([(''date'', ''03.04.2024'')] @ (''topic'', ''pricing and delivery'') # []) False =
     (Inr (), ?files(''/app/summaryU.md'' \<mapsto>
        ''# Summary'' @ [LF] @ ''![logo](template/img.svg)'' @ [LF] @ ''03.04.2024'' @
        ''pricing and delivery''))"
    by (simp add: get_summary_file_def copy_def path_to_file_eq substitute_logo_def
        str_replace_def join_def placeholder_def overwrite_def two_field_template_def)
  have pre: "\<forall>(f, a) \<in> set [(''date'', ''03.04.2024'')].
       f \<noteq> ''topic'' \<and> a \<noteq> placeholder ''topic''"
    by (simp add: placeholder_def)
  have l1: "substitute_logo (readlines (universal_newlines two_field_template)) = Inr ?l1"
    by (simp add: two_field_template_def substitute_logo_def str_replace_def join_def)
  have cur: "substitute_fields ?l1 [(''date'', ''03.04.2024'')] = Inr ?cur"
    by (simp add: placeholder_def)
  from field_line_replaced [OF run] obtain raw lines1 c i where
    r1: "?files ''/app/template/template.md'' = Some raw"
    and r2: "substitute_logo (readlines (universal_newlines raw)) = Inr lines1"
    and r3: "substitute_fields lines1 [(''date'', ''03.04.2024'')] = Inr c"
    and r4: "replace_field c (''topic'', ''pricing and delivery'')
               = Inr (c[i := ''pricing and delivery''])"
    and r5: "(\<forall>(f, a) \<in> set [(''date'', ''03.04.2024'')].
                f \<noteq> ''topic'' \<and> a \<noteq> placeholder ''topic'') \<longrightarrow>
             list_index lines1 (placeholder ''topic'') = Some i"
    by blast
  from r1 have raw: "raw = two_field_template" by simp
  from trans [OF sym [OF r2 [unfolded raw]] l1] have lines1: "lines1 = ?l1"
    by (simp only: sum.inject)
  from trans [OF sym [OF r3 [unfolded lines1]] cur] have c: "c = ?cur"
    by (simp only: sum.inject)
  from r5 pre have "list_index ?l1 (placeholder ''topic'') = Some i"
    unfolding lines1 by blast
  moreover from r4 have "replace_field ?cur (''topic'', ''pricing and delivery'')
                           = Inr (?cur[i := ''pricing and delivery''])"
    unfolding c .
  moreover have "''date'' \<noteq> ''topic''" and "''03.04.2024'' \<noteq> placeholder ''topic''"
    by (simp_all add: placeholder_def)
  ultimately show ?thesis using run by blast
qed

text \<open>
  Claim C3, as amended. When the turn of a field comes and no line of the document as it
  stands then equals \<^verbatim>\<open>:::<field>:::\n\<close> (the template having at least two lines),
  \<open>get_summary_file\<close> raises the \<^verbatim>\<open>ValueError\<close> of \<^verbatim>\<open>list.index\<close>, which carries the literal it
  looked for. Nothing is written back and no PDF is made, but the output file made by the
  initial copy stays in the output directory, holding the bytes of the template.
\<close>

theorem missing_placeholder_value_error:
  assumes "files path = Some raw" and "path \<noteq> path_to_file dir uuid"
    and "substitute_logo (readlines (universal_newlines raw)) = Inr lines1"
    and "substitute_fields lines1 pre = Inr cur"
    and "placeholder field \<notin> set cur"
  shows "get_summary_file render dir uuid files path (pre @ (field, ans) # post) make_pdf =
           (Inl (ValueError (placeholder field)), files(path_to_file dir uuid \<mapsto> raw))"
proof -
  from assms(5) have "list_index cur (placeholder field) = None"
    by (simp add: list_index_None)
  then have "substitute_fields lines1 (pre @ (field, ans) # post) =
               Inl (ValueError (placeholder field))"
    by (simp add: substitute_fields_append assms(4))
  then show ?thesis
    by (simp add: get_summary_file_copied [of files path raw dir uuid, OF assms(1,2)] assms(3))
qed

theorem missing_placeholder_value_error_witness:
  "example_files ''/app/template/template.md'' = Some example_template \<and>
   ''/app/template/template.md'' \<noteq> path_to_file ''/app'' ''U'' \<and>
   substitute_logo (readlines (universal_newlines example_template)) =
     Inr [''# Summary'' @ [LF], ''![logo](template/img.svg)'' @ [LF], '':::date:::'' @ [LF]] \<and>
   substitute_fields
       [''# Summary'' @ [LF], ''![logo](template/img.svg)'' @ [LF], '':::date:::'' @ [LF]]
       [(''date'', ''03.04.2024'')] =
     Inr [''# Summary'' @ [LF], ''![logo](template/img.svg)'' @ [LF], ''03.04.2024''] \<and>
   placeholder ''topic'' \<notin>
     set [''# Summary'' @ [LF], ''![logo](template/img.svg)'' @ [LF], ''03.04.2024''] \<and>
   get_summary_file plain_render ''/app'' ''U'' example_files ''/app/template/template.md''
       ([(''date'', ''03.04.2024'')] @ (''topic'', ''pricing'') # []) True =
     (Inl (ValueError (placeholder ''topic'')),
      example_files(path_to_file ''/app'' ''U'' \<mapsto> example_template))"
proof -
  have a: "example_files ''/app/template/template.md'' = Some example_template"
    by (simp add: example_files_def)
  have b: "''/app/template/template.md'' \<noteq> path_to_file ''/app'' ''U''"
    by (simp add: path_to_file_eq)
  have c: "substitute_logo (readlines (universal_newlines example_template)) =
     Inr [''# Summary'' @ [LF], ''![logo](template/img.svg)'' @ [LF], '':::date:::'' @ [LF]]"
    by (simp add: example_template_def substitute_logo_def str_replace_def join_def)
  have d: "substitute_fields
       [''# Summary'' @ [LF], ''![logo](template/img.svg)'' @ [LF], '':::date:::'' @ [LF]]
       [(''date'', ''03.04.2024'')] =
     Inr [''# Summary'' @ [LF], ''![logo](template/img.svg)'' @ [LF], ''03.04.2024'']"
    by (simp add: placeholder_def)
  have e: "placeholder ''topic'' \<notin>
     set [''# Summary'' @ [LF], ''![logo](template/img.svg)'' @ [LF], ''03.04.2024'']"
    by (simp add: placeholder_def)
  from missing_placeholder_value_error
      [of example_files "''/app/template/template.md''" example_template "''/app''" "''U''" _
          "[(''date'', ''03.04.2024'')]" _ "''topic''" plain_render "''pricing''" "[]" True,
       OF a b c d e] a b c d e
  show ?thesis by simp
qed

text \<open>
  The claim as it was stated fails on a template without a line for \<^verbatim>\<open>topic\<close>: the error is a
  \<^verbatim>\<open>ValueError\<close>, and the output file, absent before the run, is left behind as an unfilled
  copy of the template.
\<close>

theorem missing_placeholder_counterexample:
  "get_summary_file plain_render ''/app'' ''U'' example_files ''/app/template/template.md''
       [(''date'', ''03.04.2024''), (''topic'', ''pricing'')] True =
     (Inl (ValueError ('':::topic:::'' @ [LF])),
      example_files(''/app/summaryU.md'' \<mapsto> example_template)) \<and>
   example_files ''/app/summaryU.md'' = None"
  by (simp add: get_summary_file_def copy_def path_to_file_eq substitute_logo_def
      str_replace_def join_def placeholder_def example_files_def example_template_def)

text \<open>
  Claim C4 asks that the output file hold exactly the substituted text. The file is
  rewritten from position 0 without being truncated, so a text shorter than the copied
  template leaves the last bytes of the copy behind it: here the substituted text of 46
  bytes is followed by the last two bytes of the 48-byte template.
\<close>

theorem rewrite_keeps_old_tail:
  "substitute_logo (readlines (universal_newlines example_template)) =
     Inr [''# Summary'' @ [LF], ''![logo](template/img.svg)'' @ [LF], '':::date:::'' @ [LF]] \<and>
   substitute_fields
       [''# Summary'' @ [LF], ''![logo](template/img.svg)'' @ [LF], '':::date:::'' @ [LF]]
       [(''date'', ''03.04.2024'')] =
     Inr [''# Summary'' @ [LF], ''![logo](template/img.svg)'' @ [LF], ''03.04.2024''] \<and>
   get_summary_file plain_render ''/app'' ''U'' example_files ''/app/template/template.md''
       [(''date'', ''03.04.2024'')] False =
     (Inr (), example_files(''/app/summaryU.md'' \<mapsto>
        concat [''# Summary'' @ [LF], ''![logo](template/img.svg)'' @ [LF], ''03.04.2024'']
          @ '':'' @ [LF]))"
  by (simp add: get_summary_file_def copy_def path_to_file_eq substitute_logo_def
      str_replace_def join_def placeholder_def overwrite_def example_files_def
      example_template_def)

text \<open>
  Claim C10. A template of fewer than two lines makes \<open>get_summary_file\<close> raise
  \<^verbatim>\<open>IndexError\<close> at the logo substitution, whatever the answer set is (no field has been looked
  up yet); the copy made before stays on disk as it was copied.
\<close>

theorem short_template_index_error:
  assumes "files path = Some raw" and "path \<noteq> path_to_file dir uuid"
    and "length (readlines (universal_newlines raw)) < 2"
  shows "get_summary_file render dir uuid files path result make_pdf =
           (Inl IndexError, files(path_to_file dir uuid \<mapsto> raw))"
  using assms(3)
  by (simp add: get_summary_file_copied [of files path raw dir uuid, OF assms(1,2)]
      substitute_logo_def)

theorem short_template_index_error_witness:
  "[''/app/template/template.md'' \<mapsto> ''# Summary'' @ [LF]] ''/app/template/template.md''
     = Some (''# Summary'' @ [LF]) \<and>
   ''/app/template/template.md'' \<noteq> path_to_file ''/app'' ''U'' \<and>
   length (readlines (universal_newlines (''# Summary'' @ [LF]))) < 2 \<and>
   get_summary_file plain_render ''/app'' ''U''
       [''/app/template/template.md'' \<mapsto> ''# Summary'' @ [LF]]
       ''/app/template/template.md'' [(''date'', ''03.04.2024'')] True =
     (Inl IndexError,
      [''/app/template/template.md'' \<mapsto> ''# Summary'' @ [LF],
       path_to_file ''/app'' ''U'' \<mapsto> ''# Summary'' @ [LF]])"
proof -
  have a: "[''/app/template/template.md'' \<mapsto> ''# Summary'' @ [LF]] ''/app/template/template.md''
     = Some (''# Summary'' @ [LF])" by simp
  have b: "''/app/template/template.md'' \<noteq> path_to_file ''/app'' ''U''"
    by (simp add: path_to_file_eq)
  have c: "length (readlines (universal_newlines (''# Summary'' @ [LF]))) < 2" by simp
  from short_template_index_error
      [of "[''/app/template/template.md'' \<mapsto> ''# Summary'' @ [LF]]"
          "''/app/template/template.md''" "''# Summary'' @ [LF]" "''/app''" "''U''"
          plain_render "[(''date'', ''03.04.2024'')]" True, OF a b c] a b c
  show ?thesis by simp
qed

section \<open>The logo token\<close>

lemma concat_readlines: "concat (readlines s) = s"
  by (induction s) (auto split: list.splits)

lemma replace_nonempty_absent:
  "\<not> sublist old s \<Longrightarrow> replace_nonempty old new s = s"
  by (induction s) (auto simp: sublist_Cons_right)

lemma replace_nonempty_first:
  assumes "old \<noteq> []" and "\<not> sublist old (a @ butlast old)"
  shows "replace_nonempty old new (a @ old @ b) = a @ new @ replace_nonempty old new b"
  using assms(2)
proof (induction a)
  case Nil
  from assms(1) obtain c cs where old: "old = c # cs" by (cases old) auto
  show ?case by (simp add: old)
next
  case (Cons x a)
  from Cons.prems have tail: "\<not> sublist old (a @ butlast old)"
    and head: "\<not> prefix old (x # a @ butlast old)"
    by (simp_all add: sublist_Cons_right)
  have "\<not> prefix old (x # a @ old @ b)"
  proof
    assume "prefix old (x # a @ old @ b)"
    then have "old = take (length old) (x # a @ old @ b)"
      by (metis append_eq_conv_conj prefix_def)
    also have "\<dots> = take (length old) (x # a @ butlast old)"
      using assms(1) by (cases old rule: rev_cases) auto
    finally have "prefix old (x # a @ butlast old)"
      by (metis take_is_prefix)
    with head show False ..
  qed
  with Cons.IH [OF tail] show ?case by simp
qed

lemma replaced_prefix:
  assumes "new = x # y # zs"
  shows "prefix p (replace_nonempty old new s) \<Longrightarrow> y \<notin> set p \<Longrightarrow> p \<noteq> [] \<Longrightarrow>
         last p \<noteq> x \<Longrightarrow> prefix p s"
proof (induction s arbitrary: p)
  case Nil
  then show ?case by simp
next
  case (Cons c cs)
  from Cons.prems(3) obtain a p' where p: "p = a # p'" by (cases p) auto
  show ?case
  proof (cases "prefix old (c # cs)")
    case True
    with Cons.prems(1) have "prefix (a # p') (x # y # zs @ replace_nonempty old new
                                (drop (length old - 1) cs))"
      by (simp add: p assms)
    then have "a = x" and "prefix p' (y # zs @ replace_nonempty old new
                                (drop (length old - 1) cs))"
      by simp_all
    with Cons.prems(2,4) show ?thesis
      by (cases p') (auto simp: p)
  next
    case False
    with Cons.prems(1) have a: "a = c"
      and p': "prefix p' (replace_nonempty old new cs)"
      by (simp_all add: p)
    show ?thesis
    proof (cases "p' = []")
      case True
      then show ?thesis by (simp add: p a)
    next
      case nonempty: False
      with Cons.prems(2,4) have "y \<notin> set p'" "last p' \<noteq> x"
        by (simp_all add: p)
      from Cons.IH [OF p' this(1) nonempty this(2)] show ?thesis
        by (simp add: p a)
    qed
  qed
qed

lemma sublist_skip_foreign:
  "c \<notin> set new \<Longrightarrow> sublist (c # cs) (new @ r) \<longleftrightarrow> sublist (c # cs) r"
  by (induction new) (auto simp: sublist_Cons_right)

lemma replaced_complete:
  assumes "old = c # cs" and "c \<notin> set new" and "new = x # y # zs" and "y \<notin> set old"
    and "last old \<noteq> x"
  shows "\<not> sublist old (replace_nonempty old new s)"
proof (induction "length s" arbitrary: s rule: less_induct)
  case less
  show ?case
  proof (cases s)
    case Nil
    then show ?thesis by (simp add: assms(1))
  next
    case (Cons d ds)
    show ?thesis
    proof (cases "prefix old (d # ds)")
      case True
      have "\<not> sublist old (replace_nonempty old new (drop (length old - 1) ds))"
        by (rule less) (simp add: Cons)
      with assms(2) have "\<not> sublist old (new @ replace_nonempty old new (drop (length old - 1) ds))"
        by (simp add: assms(1) sublist_skip_foreign)
      with True show ?thesis by (simp add: Cons)
    next
      case False
      have tail: "\<not> sublist old (replace_nonempty old new ds)"
        by (rule less) (simp add: Cons)
      have ne: "old \<noteq> []" by (simp add: assms(1))
      have "prefix old (d # ds)" if "prefix old (replace_nonempty old new (d # ds))"
        by (rule replaced_prefix [OF assms(3) that assms(4) ne assms(5)])
      with False have "\<not> prefix old (replace_nonempty old new (d # ds))"
        by blast
      with False have "\<not> prefix old (d # replace_nonempty old new ds)"
        by simp
      with tail have "\<not> sublist old (d # replace_nonempty old new ds)"
        by (simp only: sublist_Cons_right) blast
      with False show ?thesis
        by (simp add: Cons)
    qed
  qed
qed

lemma logo_replaced_everywhere:
  "\<not> sublist '':::path_to_img:::''
       (str_replace '':::path_to_img:::'' (join ''template'' ''img.svg'') s)"
proof -
  have "\<not> sublist '':::path_to_img:::''
          (replace_nonempty '':::path_to_img:::'' ''template/img.svg'' s)"
    by (rule replaced_complete [where c = "CHR '':''" and cs = "''::path_to_img:::''"
          and x = "CHR ''t''" and y = "CHR ''e''" and zs = "''mplate/img.svg''"]) simp_all
  then show ?thesis by (simp add: str_replace_def join_def)
qed

lemma logo_replaced_first:
  "\<not> sublist '':::path_to_img:::'' (a @ butlast '':::path_to_img:::'') \<Longrightarrow>
   str_replace '':::path_to_img:::'' ''template/img.svg'' (a @ '':::path_to_img:::'' @ b) =
     a @ ''template/img.svg'' @ str_replace '':::path_to_img:::'' ''template/img.svg'' b"
  using replace_nonempty_first [of "'':::path_to_img:::''" a "''template/img.svg''" b]
  by (simp add: str_replace_def)

lemma logo_absent:
  "\<not> sublist '':::path_to_img:::'' l \<Longrightarrow>
   str_replace '':::path_to_img:::'' (join ''template'' ''img.svg'') l = l"
  by (simp add: str_replace_def replace_nonempty_absent)

text \<open>
  Claim C7. On a template of at least two lines the logo substitution rewrites the second
  line (index 1) and no other: the line becomes the result of replacing the token
  \<^verbatim>\<open>:::path_to_img:::\<close> by \<^verbatim>\<open>template/img.svg\<close>. The replacement takes every occurrence: no
  token is left in its result, and a line whose first occurrence starts after \<open>a\<close> becomes
  \<open>a\<close>, the path, and the replacement of the rest. If the token is not on the second line
  nothing is raised and the document stays as it was read, with any token on another line
  still in it: the substitution goes by position and searches nothing.
\<close>

theorem logo_replaced_on_second_line:
  assumes "files path = Some raw" and "path \<noteq> path_to_file dir uuid"
    and "readlines (universal_newlines raw) = ls" and "2 \<le> length ls"
  shows "substitute_logo ls =
           Inr (ls[1 := str_replace '':::path_to_img:::'' ''template/img.svg'' (ls ! 1)]) \<and>
         get_summary_file render dir uuid files path [] False =
           (Inr (), files(path_to_file dir uuid \<mapsto> overwrite raw
              (concat (ls[1 := str_replace '':::path_to_img:::'' ''template/img.svg''
                                (ls ! 1)])))) \<and>
         \<not> sublist '':::path_to_img:::''
             (str_replace '':::path_to_img:::'' ''template/img.svg'' l) \<and>
         (\<not> sublist '':::path_to_img:::'' (a @ butlast '':::path_to_img:::'') \<longrightarrow>
            str_replace '':::path_to_img:::'' ''template/img.svg''
                (a @ '':::path_to_img:::'' @ b) =
              a @ ''template/img.svg'' @
              str_replace '':::path_to_img:::'' ''template/img.svg'' b) \<and>
         (\<not> sublist '':::path_to_img:::'' (ls ! 1) \<longrightarrow>
            substitute_logo ls = Inr ls \<and>
            get_summary_file render dir uuid files path [] False =
              (Inr (), files(path_to_file dir uuid \<mapsto>
                         overwrite raw (universal_newlines raw))))"
proof -
  have logo: "join ''template'' ''img.svg'' = ''template/img.svg''"
    by (simp add: join_def)
  have step: "substitute_logo ls =
           Inr (ls[1 := str_replace '':::path_to_img:::'' ''template/img.svg'' (ls ! 1)])"
    using assms(4) by (simp add: substitute_logo_def logo)
  have run: "get_summary_file render dir uuid files path [] False =
           (Inr (), files(path_to_file dir uuid \<mapsto> overwrite raw
              (concat (ls[1 := str_replace '':::path_to_img:::'' ''template/img.svg''
                                (ls ! 1)]))))"
    by (simp add: get_summary_file_copied [of files path raw dir uuid, OF assms(1,2)]
        assms(3) step)
  have gone: "\<not> sublist '':::path_to_img:::''
             (str_replace '':::path_to_img:::'' ''template/img.svg'' l)"
    using logo_replaced_everywhere [of l] by (simp add: logo)
  have same: "substitute_logo ls = Inr ls \<and>
            get_summary_file render dir uuid files path [] False =
              (Inr (), files(path_to_file dir uuid \<mapsto>
                         overwrite raw (universal_newlines raw)))"
    if "\<not> sublist '':::path_to_img:::'' (ls ! 1)"
  proof -
    from that have "str_replace '':::path_to_img:::'' ''template/img.svg'' (ls ! 1) = ls ! 1"
      using logo_absent [of "ls ! 1"] by (simp add: logo)
    then have "ls[1 := str_replace '':::path_to_img:::'' ''template/img.svg'' (ls ! 1)] = ls"
      by simp
    moreover have "concat ls = universal_newlines raw"
      using concat_readlines [of "universal_newlines raw"] by (simp add: assms(3))
    ultimately show ?thesis using step run by simp
  qed
  from step run gone same logo_replaced_first [of a b] show ?thesis by blast
qed

theorem logo_replaced_on_second_line_witness:
  "[''/app/template/template.md'' \<mapsto> misplaced_template] ''/app/template/template.md''
     = Some misplaced_template \<and>
   ''/app/template/template.md'' \<noteq> path_to_file ''/app'' ''U'' \<and>
   readlines (universal_newlines misplaced_template) =
     [''# Summary'' @ [LF], ''Call notes'' @ [LF], ''![logo](:::path_to_img:::)'' @ [LF]] \<and>
   \<not> sublist '':::path_to_img:::'' (''![logo]('' @ butlast '':::path_to_img:::'') \<and>
   str_replace '':::path_to_img:::'' ''template/img.svg''
       (''![logo]('' @ '':::path_to_img:::'' @ '')'') = ''![logo](template/img.svg)'' \<and>
   \<not> sublist '':::path_to_img:::'' (''Call notes'' @ [LF]) \<and>
   get_summary_file plain_render ''/app'' ''U''
       [''/app/template/template.md'' \<mapsto> misplaced_template]
       ''/app/template/template.md'' [] False =
     (Inr (), [''/app/template/template.md'' \<mapsto> misplaced_template,
               path_to_file ''/app'' ''U'' \<mapsto> misplaced_template])"
proof -
  let ?ls = "[''# Summary'' @ [LF], ''Call notes'' @ [LF],
              ''![logo](:::path_to_img:::)'' @ [LF]]"
  have a: "[''/app/template/template.md'' \<mapsto> misplaced_template] ''/app/template/template.md''
     = Some misplaced_template" by simp
  have b: "''/app/template/template.md'' \<noteq> path_to_file ''/app'' ''U''"
    by (simp add: path_to_file_eq)
  have c: "readlines (universal_newlines misplaced_template) = ?ls"
    by (simp add: misplaced_template_def)
  have d: "2 \<le> length ?ls" by simp
  have e: "\<not> sublist '':::path_to_img:::'' (''![logo]('' @ butlast '':::path_to_img:::'')"
    by (simp add: sublist_Cons_right)
  have f: "\<not> sublist '':::path_to_img:::'' (?ls ! 1)"
    by (simp add: sublist_Cons_right)
  have g: "universal_newlines misplaced_template = misplaced_template"
    by (simp add: misplaced_template_def)
  have h: "str_replace '':::path_to_img:::'' ''template/img.svg'' '')'' = '')''"
    by (simp add: str_replace_def)
  note inst = logo_replaced_on_second_line
      [of "[''/app/template/template.md'' \<mapsto> misplaced_template]"
          "''/app/template/template.md''" misplaced_template "''/app''" "''U''" ?ls
          plain_render "''Call notes''" "''![logo](''" "'')''", OF a b c d]
  from inst f have run: "get_summary_file plain_render ''/app'' ''U''
       [''/app/template/template.md'' \<mapsto> misplaced_template]
       ''/app/template/template.md'' [] False =
     (Inr (), [''/app/template/template.md'' \<mapsto> misplaced_template,
               path_to_file ''/app'' ''U'' \<mapsto>
                 overwrite misplaced_template (universal_newlines misplaced_template)])"
    by blast
  from inst e have first: "str_replace '':::path_to_img:::'' ''template/img.svg''
                (''![logo]('' @ '':::path_to_img:::'' @ '')'') =
              ''![logo]('' @ ''template/img.svg'' @
              str_replace '':::path_to_img:::'' ''template/img.svg'' '')''"
    by blast
  have i: "\<not> sublist '':::path_to_img:::'' (''Call notes'' @ [LF])"
    using f by simp
  from run have run': "get_summary_file plain_render ''/app'' ''U''
       [''/app/template/template.md'' \<mapsto> misplaced_template]
       ''/app/template/template.md'' [] False =
     (Inr (), [''/app/template/template.md'' \<mapsto> misplaced_template,
               path_to_file ''/app'' ''U'' \<mapsto> misplaced_template])"
    by (simp add: g overwrite_def)
  from first have first': "str_replace '':::path_to_img:::'' ''template/img.svg''
       (''![logo]('' @ '':::path_to_img:::'' @ '')'') = ''![logo](template/img.svg)''"
    by (simp add: h)
  from a b c e i run' first' show ?thesis by blast
qed

section \<open>Rendering and the output files\<close>

text \<open>
  Claim C8, as amended. When rendering is requested, the PDF engine is called once, with one
  section: the final markdown text, no table of contents, \<^verbatim>\<open>PATH_TO_DIR\<close> as root and the
  borders \<open>(10, 10, -10, -10)\<close>, that is 10 for the first two components and -10 for the last
  two. Its result is stored under the path of the markdown file with \<^verbatim>\<open>.md\<close> replaced by
  \<^verbatim>\<open>.pdf\<close>. When rendering is not requested the engine is not called.
\<close>

theorem renderer_call:
  assumes "files path = Some raw" and "path \<noteq> path_to_file dir uuid"
    and "substitute_logo (readlines (universal_newlines raw)) = Inr lines1"
    and "substitute_fields lines1 result = Inr lines2"
  shows "get_summary_file render dir uuid files path result True =
           (case render [\<lparr>sec_text = concat lines2, sec_toc = False, sec_root = dir,
                           sec_borders = (10, 10, - 10, - 10)\<rparr>] of
              Inl e \<Rightarrow> (Inl e, files(path_to_file dir uuid \<mapsto> overwrite raw (concat lines2)))
            | Inr pdf \<Rightarrow>
                (Inr (), files(path_to_file dir uuid \<mapsto> overwrite raw (concat lines2),
                               path_to_pdf dir uuid \<mapsto> pdf))) \<and>
         get_summary_file render dir uuid files path result False =
           (Inr (), files(path_to_file dir uuid \<mapsto> overwrite raw (concat lines2))) \<and>
         (\<exists>stem. path_to_file dir uuid = stem @ ''.md'' \<and> path_to_pdf dir uuid = stem @ ''.pdf'')"
proof (intro conjI)
  show "\<exists>stem. path_to_file dir uuid = stem @ ''.md'' \<and> path_to_pdf dir uuid = stem @ ''.pdf''"
    by (rule exI [of _ "(if dir = [] \<or> last dir = CHR ''/'' then dir else dir @ ''/'')
                          @ ''summary'' @ uuid"])
       (simp add: path_to_file_eq path_to_pdf_eq)
qed (simp_all add: get_summary_file_copied [of files path raw dir uuid, OF assms(1,2)] assms(3,4))

theorem renderer_call_witness:
  "example_files ''/app/template/template.md'' = Some example_template \<and>
   ''/app/template/template.md'' \<noteq> path_to_file ''/app'' ''U'' \<and>
   substitute_logo (readlines (universal_newlines example_template)) =
     Inr [''# Summary'' @ [LF], ''![logo](template/img.svg)'' @ [LF], '':::date:::'' @ [LF]] \<and>
   substitute_fields
       [''# Summary'' @ [LF], ''![logo](template/img.svg)'' @ [LF], '':::date:::'' @ [LF]]
       [(''date'', ''03.04.2024'')] =
     Inr [''# Summary'' @ [LF], ''![logo](template/img.svg)'' @ [LF], ''03.04.2024''] \<and>
   get_summary_file (picky_render (\<lambda>b. b = (10, 10, - 10, - 10))) ''/app'' ''U'' example_files
       ''/app/template/template.md'' [(''date'', ''03.04.2024'')] True =
     (Inr (), example_files(path_to_file ''/app'' ''U'' \<mapsto>
                 overwrite example_template
                   (concat [''# Summary'' @ [LF], ''![logo](template/img.svg)'' @ [LF],
                            ''03.04.2024'']),
               path_to_pdf ''/app'' ''U'' \<mapsto> ''%PDF''))"
proof -
  have a: "example_files ''/app/template/template.md'' = Some example_template"
    by (simp add: example_files_def)
  have b: "''/app/template/template.md'' \<noteq> path_to_file ''/app'' ''U''"
    by (simp add: path_to_file_eq)
  have c: "substitute_logo (readlines (universal_newlines example_template)) =
     Inr [''# Summary'' @ [LF], ''![logo](template/img.svg)'' @ [LF], '':::date:::'' @ [LF]]"
    by (simp add: example_template_def substitute_logo_def str_replace_def join_def)
  have d: "substitute_fields
       [''# Summary'' @ [LF], ''![logo](template/img.svg)'' @ [LF], '':::date:::'' @ [LF]]
       [(''date'', ''03.04.2024'')] =
     Inr [''# Summary'' @ [LF], ''![logo](template/img.svg)'' @ [LF], ''03.04.2024'']"
    by (simp add: placeholder_def)
  from renderer_call
      [of example_files "''/app/template/template.md''" example_template "''/app''" "''U''" _
          "[(''date'', ''03.04.2024'')]" _ "picky_render (\<lambda>b. b = (10, 10, - 10, - 10))",
       OF a b c d] a b c d
  show ?thesis by (simp add: picky_render_def)
qed

text \<open>
  The claim as it was stated gives three borders of 10 and one of -10. An engine that accepts
  only such borders, in whatever order, rejects the call of the program; an engine that
  accepts only \<open>(10, 10, -10, -10)\<close> renders it.
\<close>

theorem renderer_borders_counterexample:
  "fst (get_summary_file (picky_render three_tens) ''/app'' ''U'' example_files
          ''/app/template/template.md'' [(''date'', ''03.04.2024'')] True)
     = Inl (PdfError ''borders rejected'') \<and>
   fst (get_summary_file (picky_render (\<lambda>b. b = (10, 10, - 10, - 10))) ''/app'' ''U''
          example_files ''/app/template/template.md'' [(''date'', ''03.04.2024'')] True)
     = Inr ()"
  by (simp add: get_summary_file_def copy_def path_to_file_eq substitute_logo_def
      str_replace_def join_def placeholder_def example_files_def example_template_def
      picky_render_def three_tens_def)

lemma get_summary_file_frame:
  "p \<noteq> path_to_file dir uuid \<Longrightarrow> (make_pdf \<Longrightarrow> p \<noteq> path_to_pdf dir uuid) \<Longrightarrow>
   snd (get_summary_file render dir uuid files path result make_pdf) p = files p"
  by (auto simp: get_summary_file_def copy_def Let_def split: sum.splits option.splits)

lemma path_to_template_eq:
  "join (join dir ''template'') ''template.md'' =
     (if dir = [] \<or> last dir = CHR ''/'' then dir else dir @ ''/'') @ ''template/template.md''"
  by (simp add: join_relative)

lemma main_files:
  "fst (snd (main safe_load invoke render dir uuid (files, s))) = files \<or>
   (\<exists>result. fst (snd (main safe_load invoke render dir uuid (files, s))) =
      snd (get_summary_file render dir uuid files
             (join (join dir ''template'') ''template.md'') result True))"
  by (auto simp: main_def Let_def split: sum.splits prod.splits) (metis snd_conv)

text \<open>
  Claim C9, as amended. A run of \<open>get_summary_file\<close> changes no file but its own outputs,
  whose names hold the token of the run: \<^verbatim>\<open>summary<uuid>.md\<close> and, when a PDF is made (the
  default), \<^verbatim>\<open>summary<uuid>.pdf\<close>, both in \<^verbatim>\<open>PATH_TO_DIR\<close>; without a PDF the markdown file
  is the only one written. The template is read and not modified, unless it is itself the
  file at the PDF path of the run; the template of \<open>main\<close>, \<^verbatim>\<open>template/template.md\<close>, never is.
  The markdown paths of two runs are the same exactly when their tokens are the same, and
  so are their PDF paths; a markdown path is never a PDF path.
\<close>

theorem output_files_named_by_token:
  "(\<forall>p. p \<noteq> path_to_file dir uuid \<and> p \<noteq> path_to_pdf dir uuid \<longrightarrow>
      snd (get_summary_file render dir uuid files path result make_pdf) p = files p) \<and>
   (\<forall>p. p \<noteq> path_to_file dir uuid \<longrightarrow>
      snd (get_summary_file render dir uuid files path result False) p = files p) \<and>
   (path \<noteq> path_to_pdf dir uuid \<longrightarrow>
      snd (get_summary_file render dir uuid files path result make_pdf) path = files path) \<and>
   snd (get_summary_file render dir uuid files path result False) path = files path \<and>
   fst (snd (main safe_load invoke render dir uuid (files, s)))
       (join (join dir ''template'') ''template.md'')
     = files (join (join dir ''template'') ''template.md'') \<and>
   path_to_file dir uuid =
     (if dir = [] \<or> last dir = CHR ''/'' then dir else dir @ ''/'')
       @ ''summary'' @ uuid @ ''.md'' \<and>
   path_to_pdf dir uuid =
     (if dir = [] \<or> last dir = CHR ''/'' then dir else dir @ ''/'')
       @ ''summary'' @ uuid @ ''.pdf'' \<and>
   (path_to_file dir uuid' = path_to_file dir uuid \<longleftrightarrow> uuid' = uuid) \<and>
   (path_to_pdf dir uuid' = path_to_pdf dir uuid \<longleftrightarrow> uuid' = uuid) \<and>
   path_to_pdf dir uuid' \<noteq> path_to_file dir uuid"
proof (intro conjI allI impI)
  fix p assume "p \<noteq> path_to_file dir uuid \<and> p \<noteq> path_to_pdf dir uuid"
  then show "snd (get_summary_file render dir uuid files path result make_pdf) p = files p"
    by (simp add: get_summary_file_frame)
next
  fix p assume "p \<noteq> path_to_file dir uuid"
  then show "snd (get_summary_file render dir uuid files path result False) p = files p"
    by (simp add: get_summary_file_frame)
next
  assume pdf: "path \<noteq> path_to_pdf dir uuid"
  show "snd (get_summary_file render dir uuid files path result make_pdf) path = files path"
  proof (cases "path = path_to_file dir uuid")
    case True
    then show ?thesis by (simp add: get_summary_file_not_copied)
  next
    case False
    with pdf show ?thesis by (simp add: get_summary_file_frame)
  qed
next
  show "snd (get_summary_file render dir uuid files path result False) path = files path"
  proof (cases "path = path_to_file dir uuid")
    case True
    then show ?thesis by (simp add: get_summary_file_not_copied)
  next
    case False
    then show ?thesis by (simp add: get_summary_file_frame)
  qed
next
  let ?t = "join (join dir ''template'') ''template.md''"
  have "?t \<noteq> path_to_file dir uuid" and "?t \<noteq> path_to_pdf dir uuid"
    by (simp_all add: path_to_template_eq path_to_file_eq path_to_pdf_eq)
  then have "snd (get_summary_file render dir uuid files ?t r True) ?t = files ?t" for r
    by (simp add: get_summary_file_frame)
  with main_files [of safe_load invoke render dir uuid files s]
  show "fst (snd (main safe_load invoke render dir uuid (files, s))) ?t = files ?t"
    by auto
next
  show "path_to_file dir uuid =
     (if dir = [] \<or> last dir = CHR ''/'' then dir else dir @ ''/'')
       @ ''summary'' @ uuid @ ''.md''"
    by (rule path_to_file_eq)
next
  show "path_to_pdf dir uuid =
     (if dir = [] \<or> last dir = CHR ''/'' then dir else dir @ ''/'')
       @ ''summary'' @ uuid @ ''.pdf''"
    by (rule path_to_pdf_eq)
next
  show "path_to_file dir uuid' = path_to_file dir uuid \<longleftrightarrow> uuid' = uuid"
    by (rule path_to_file_inj)
next
  show "path_to_pdf dir uuid' = path_to_pdf dir uuid \<longleftrightarrow> uuid' = uuid"
    by (rule path_to_pdf_inj)
next
  show "path_to_pdf dir uuid' \<noteq> path_to_file dir uuid"
    by (rule path_to_pdf_neq_file)
qed

theorem output_files_named_by_token_witness:
  "''/app/template/template.md'' \<noteq> path_to_file ''/app'' ''U'' \<and>
   ''/app/template/template.md'' \<noteq> path_to_pdf ''/app'' ''U'' \<and>
   snd (get_summary_file plain_render ''/app'' ''U'' example_files
          ''/app/template/template.md'' [(''date'', ''03.04.2024'')] True)
       ''/app/template/template.md'' = example_files ''/app/template/template.md'' \<and>
   snd (get_summary_file plain_render ''/app'' ''U'' example_files
          ''/app/template/template.md'' [(''date'', ''03.04.2024'')] False)
       ''/app/template/template.md'' = example_files ''/app/template/template.md'' \<and>
   path_to_file ''/app'' ''U'' = ''/app/summaryU.md'' \<and>
   path_to_pdf ''/app'' ''U'' = ''/app/summaryU.pdf'' \<and>
   path_to_file ''/app'' ''V'' \<noteq> path_to_file ''/app'' ''U'' \<and>
   path_to_pdf ''/app'' ''V'' \<noteq> path_to_pdf ''/app'' ''U''"
proof -
  have a: "''/app/template/template.md'' \<noteq> path_to_file ''/app'' ''U''"
    by (simp add: path_to_file_eq)
  have b: "''/app/template/template.md'' \<noteq> path_to_pdf ''/app'' ''U''"
    by (simp add: path_to_pdf_eq)
  have c: "''V'' \<noteq> ''U''" by simp
  note inst = output_files_named_by_token
      [of "''/app''" "''U''" plain_render example_files "''/app/template/template.md''"
          "[(''date'', ''03.04.2024'')]" True sample_safe_load echo_chain "()" "''V''"]
  from inst a b have e:
    "snd (get_summary_file plain_render ''/app'' ''U'' example_files
          ''/app/template/template.md'' [(''date'', ''03.04.2024'')] True)
       ''/app/template/template.md'' = example_files ''/app/template/template.md''"
    by blast
  from inst a have f:
    "snd (get_summary_file plain_render ''/app'' ''U'' example_files
          ''/app/template/template.md'' [(''date'', ''03.04.2024'')] False)
       ''/app/template/template.md'' = example_files ''/app/template/template.md''"
    by blast
  from inst have g: "path_to_file ''/app'' ''U'' = ''/app/summaryU.md''"
    and h: "path_to_pdf ''/app'' ''U'' = ''/app/summaryU.pdf''"
    by simp_all
  from inst c have i: "path_to_file ''/app'' ''V'' \<noteq> path_to_file ''/app'' ''U'' \<and>
      path_to_pdf ''/app'' ''V'' \<noteq> path_to_pdf ''/app'' ''U''"
    by blast
  from a b e f g h i show ?thesis by blast
qed

text \<open>
  The claim as it was stated has the run write to the markdown file only and never to the
  template. On the default path a PDF is written as well: a run in a directory without
  \<^verbatim>\<open>summaryU.pdf\<close> leaves that file behind, and a template that is itself the file at the
  PDF path of the run is overwritten by the PDF.
\<close>

theorem output_files_counterexample:
  "example_files ''/app/summaryU.pdf'' = None \<and>
   ''/app/summaryU.pdf'' \<noteq> path_to_file ''/app'' ''U'' \<and>
   snd (get_summary_file plain_render ''/app'' ''U'' example_files
          ''/app/template/template.md'' [(''date'', ''03.04.2024'')] True) ''/app/summaryU.pdf''
     = Some (''%PDF'' @ ''# Summary'' @ [LF] @ ''![logo](template/img.svg)'' @ [LF] @
             ''03.04.2024'') \<and>
   snd (get_summary_file plain_render ''/app'' ''U''
          [''/app/summaryU.pdf'' \<mapsto> example_template] ''/app/summaryU.pdf''
          [(''date'', ''03.04.2024'')] True) ''/app/summaryU.pdf''
     = Some (''%PDF'' @ ''# Summary'' @ [LF] @ ''![logo](template/img.svg)'' @ [LF] @
             ''03.04.2024'') \<and>
   example_template \<noteq> ''%PDF'' @ ''# Summary'' @ [LF] @ ''![logo](template/img.svg)'' @ [LF] @
                         ''03.04.2024''"
  by (simp add: get_summary_file_def copy_def Let_def path_to_file_eq path_to_pdf_eq
      substitute_logo_def str_replace_def join_def placeholder_def example_files_def
      example_template_def plain_render_def)

end
